theory Spec2Isabelle
  imports Main
begin

section \<open>Filing of imported documents (beancount.ingest.file)\<close>

text \<open>
  The module \<^verbatim>\<open>src/python/beancount/ingest/file.py\<close> has two functions: \<^verbatim>\<open>file\<close>,
  which resolves for every matched file an account, a date and a destination name and
  then moves the files, and \<^verbatim>\<open>move_xdev_file\<close>, which moves one file by copying and
  deleting. Both are embedded here. Strings are \<^typ>\<open>string\<close>, a Python \<^verbatim>\<open>None\<close> is
  \<^term>\<open>None\<close>, every \<^verbatim>\<open>raise\<close> is a value of type \<open>error\<close>, and the file system, the
  log file and the records sent to \<^verbatim>\<open>logging.error\<close> are explicit state.
\<close>

subsection \<open>The standard library: strings and POSIX paths\<close>

text \<open>
  \<^verbatim>\<open>os.path\<close> is \<^verbatim>\<open>posixpath\<close>: the platform separator \<^verbatim>\<open>os.sep\<close> is a slash. The functions
  below follow the text of \<^verbatim>\<open>posixpath.py\<close>.
\<close>

definition os_sep :: char where
  "os_sep = CHR ''/''"

text \<open>\<^verbatim>\<open>s.startswith(t)\<close> and \<^verbatim>\<open>s.endswith(t)\<close>.\<close>

definition startswith :: "string \<Rightarrow> string \<Rightarrow> bool" where
  "startswith s t = (take (length t) s = t)"

definition endswith :: "string \<Rightarrow> string \<Rightarrow> bool" where
  "endswith s t = (length t \<le> length s \<and> drop (length s - length t) s = t)"

text \<open>\<^verbatim>\<open>s.split(c)\<close> for a one-character separator: the result is never empty.\<close>

fun split_sep :: "char \<Rightarrow> string \<Rightarrow> string list" where
  "split_sep c [] = [[]]"
| "split_sep c (x # xs) =
     (if x = c then [] # split_sep c xs
      else (case split_sep c xs of [] \<Rightarrow> [[x]] | y # ys \<Rightarrow> (x # y) # ys))"

text \<open>\<^verbatim>\<open>s.join(parts)\<close>.\<close>

fun join_sep :: "string \<Rightarrow> string list \<Rightarrow> string" where
  "join_sep s [] = []"
| "join_sep s [x] = x"
| "join_sep s (x # y # zs) = x @ s @ join_sep s (y # zs)"

text \<open>
  \<^verbatim>\<open>s.replace(old, new)\<close> where both \<^verbatim>\<open>old\<close> and \<^verbatim>\<open>new\<close> are one character long, which
  is how \<^verbatim>\<open>file\<close> calls it (\<^verbatim>\<open>account.sep\<close> and \<^verbatim>\<open>os.sep\<close>).
\<close>

definition str_replace :: "char \<Rightarrow> char \<Rightarrow> string \<Rightarrow> string" where
  "str_replace old new s = map (\<lambda>c. if c = old then new else c) s"

text \<open>\<^verbatim>\<open>s.rstrip(c)\<close> for one character.\<close>

definition rstrip :: "char \<Rightarrow> string \<Rightarrow> string" where
  "rstrip c s = rev (dropWhile (\<lambda>x. x = c) (rev s))"

text \<open>
  \<^verbatim>\<open>posixpath.join(a, *p)\<close>: a loop over \<^verbatim>\<open>p\<close>; a component that starts with a slash
  replaces what was joined so far.
\<close>

definition join_step :: "string \<Rightarrow> string \<Rightarrow> string" where
  "join_step path b =
     (if startswith b [os_sep] then b
      else if path = [] \<or> endswith path [os_sep] then path @ b
      else path @ [os_sep] @ b)"

definition path_join :: "string \<Rightarrow> string list \<Rightarrow> string" where
  "path_join a p = foldl join_step a p"

text \<open>
  \<^verbatim>\<open>posixpath.normpath(path)\<close>. \<open>norm_comps\<close> is its loop over the components, with
  \<^verbatim>\<open>new_comps\<close> as accumulator (the loop variable \<^verbatim>\<open>comp\<close> is \<open>cmp\<close> here);
  \<^verbatim>\<open>initial_slashes\<close> is 0, 1 or 2.
\<close>

fun norm_comps :: "nat \<Rightarrow> string list \<Rightarrow> string list \<Rightarrow> string list" where
  "norm_comps initial_slashes new_comps [] = new_comps"
| "norm_comps initial_slashes new_comps (cmp # comps) =
     (if cmp = [] \<or> cmp = ''.'' then norm_comps initial_slashes new_comps comps
      else if cmp \<noteq> ''..'' \<or> (initial_slashes = 0 \<and> new_comps = [])
                \<or> (new_comps \<noteq> [] \<and> last new_comps = ''..'')
      then norm_comps initial_slashes (new_comps @ [cmp]) comps
      else if new_comps \<noteq> [] then norm_comps initial_slashes (butlast new_comps) comps
      else norm_comps initial_slashes new_comps comps)"

definition initial_slashes_of :: "string \<Rightarrow> nat" where
  "initial_slashes_of path =
     (if startswith path [os_sep] then
        (if startswith path [os_sep, os_sep] \<and> \<not> startswith path [os_sep, os_sep, os_sep]
         then 2 else 1)
      else 0)"

definition normpath :: "string \<Rightarrow> string" where
  "normpath path =
     (if path = [] then ''.''
      else
        let initial_slashes = initial_slashes_of path;
            comps = norm_comps initial_slashes [] (split_sep os_sep path);
            path1 = join_sep [os_sep] comps;
            path2 = (if initial_slashes \<noteq> 0 then replicate initial_slashes os_sep @ path1
                     else path1)
        in if path2 = [] then ''.'' else path2)"

text \<open>
  \<^verbatim>\<open>posixpath.basename\<close> and \<^verbatim>\<open>posixpath.dirname\<close>. Both start from
  \<^verbatim>\<open>i = p.rfind(sep) + 1\<close>, the index after the last slash (0 when there is none).
\<close>

definition rfind_sep_plus1 :: "string \<Rightarrow> nat" where
  "rfind_sep_plus1 p = length p - length (takeWhile (\<lambda>c. c \<noteq> os_sep) (rev p))"

definition path_basename :: "string \<Rightarrow> string" where
  "path_basename p = drop (rfind_sep_plus1 p) p"

definition path_dirname :: "string \<Rightarrow> string" where
  "path_dirname p =
     (let head = take (rfind_sep_plus1 p) p
      in if head \<noteq> [] \<and> head \<noteq> replicate (length head) os_sep then rstrip os_sep head
         else head)"

subsection \<open>Dates\<close>

text \<open>
  A \<^verbatim>\<open>datetime.date\<close> is a record that satisfies \<open>valid_date\<close>: the year is between 1
  and 9999, the month between 1 and 12, and the day exists in that month.
\<close>

record date =
  year :: nat
  month :: nat
  day :: nat




definition digit_char :: "nat \<Rightarrow> char" where
  "digit_char n = ''0123456789'' ! (n mod 10)"

definition pad2 :: "nat \<Rightarrow> string" where
  "pad2 n = [digit_char (n div 10 mod 10), digit_char (n mod 10)]"

definition pad4 :: "nat \<Rightarrow> string" where
  "pad4 n = [digit_char (n div 1000 mod 10), digit_char (n div 100 mod 10),
             digit_char (n div 10 mod 10), digit_char (n mod 10)]"

text \<open>
  \<^verbatim>\<open>str(date)\<close>, which is \<^verbatim>\<open>date.isoformat()\<close>: the year has four digits. Line 141 writes
  a date this way.
\<close>

definition isoformat :: "date \<Rightarrow> string" where
  "isoformat d = pad4 (year d) @ ''-'' @ pad2 (month d) @ ''-'' @ pad2 (day d)"

text \<open>
  The format \<^verbatim>\<open>%Y-%m-%d\<close> of line 127 goes through the C library's \<^verbatim>\<open>strftime\<close>, whose
  \<^verbatim>\<open>%Y\<close> writes the year without padding: the year 999 is written \<^verbatim>\<open>999\<close>. For the
  years of a date that is the four-digit form without its leading zeros.
\<close>

definition strftime_Y :: "nat \<Rightarrow> string" where
  "strftime_Y y = dropWhile (\<lambda>c. c = CHR ''0'') (pad4 y)"

definition format_date :: "date \<Rightarrow> string" where
  "format_date d = strftime_Y (year d) @ ''-'' @ pad2 (month d) @ ''-'' @ pad2 (day d)"

subsection \<open>The file system\<close>

text \<open>
  What \<^verbatim>\<open>file\<close> reads and changes on disk. The nodes are kept under their absolute,
  normalised paths, and a path given to a system call is resolved against the working
  directory first (\<open>fs_key\<close>), so that two spellings of one path name the same node.
  There are no symbolic or hard links. A regular file has its bytes and the local date
  of its last modification, which is what
  \<^verbatim>\<open>datetime.datetime.fromtimestamp(path.getmtime(f)).date()\<close> computes from it. \<open>today\<close> is
  the date stamped on nodes created during the run. \<open>write_limit\<close> says how many bytes
  the device accepts when a file is written (no entry: no limit): it is how a copy that
  fails partway is represented.
\<close>

datatype node = RegularFile (content: string) (mtime: date) | Directory (mtime: date)

record filesystem =
  nodes :: "string \<rightharpoonup> node"
  cwd :: string
  today :: date
  write_limit :: "string \<rightharpoonup> nat"

text \<open>
  The exceptions of the run. \<open>DestinationDirectoryMissing\<close> is the \<^verbatim>\<open>OSError\<close> that
  \<^verbatim>\<open>move_xdev_file\<close> raises itself; \<open>OSError\<close> is the one of a write the device refuses.
\<close>

datatype error =
    FileNotFoundError string
  | IsADirectoryError string
  | NotADirectoryError string
  | FileExistsError string
  | SameFileError string
  | DestinationDirectoryMissing string
  | OSError string

type_synonym 'a io = "error \<times> 'a + 'a"

text \<open>
  The absolute, normalised path that a path stands for (\<^verbatim>\<open>os.path.abspath\<close>, with the
  two leading slashes that \<^verbatim>\<open>normpath\<close> keeps read as one).
\<close>

definition fs_key :: "filesystem \<Rightarrow> string \<Rightarrow> string" where
  "fs_key fs p =
     (let a = normpath (join_step (cwd fs) p)
      in if startswith a [os_sep, os_sep] then tl a else a)"

text \<open>
  What a system call finds at a path: nothing at the empty path, and only a directory
  at a path that ends with a slash.
\<close>

definition node_at :: "filesystem \<Rightarrow> string \<Rightarrow> node option" where
  "node_at fs p =
     (if p = [] then None
      else case nodes fs (fs_key fs p) of
        Some (RegularFile b m) \<Rightarrow> if endswith p [os_sep] then None else Some (RegularFile b m)
      | other \<Rightarrow> other)"

text \<open>\<^verbatim>\<open>os.path.exists(p)\<close>.\<close>

definition path_exists :: "filesystem \<Rightarrow> string \<Rightarrow> bool" where
  "path_exists fs p = (node_at fs p \<noteq> None)"

text \<open>
  \<^verbatim>\<open>datetime.datetime.fromtimestamp(path.getmtime(p)).date()\<close>: \<^verbatim>\<open>getmtime\<close> raises when
  the path does not exist.
\<close>

definition getmtime_date :: "filesystem \<Rightarrow> string \<Rightarrow> error + date" where
  "getmtime_date fs p =
     (case node_at fs p of None \<Rightarrow> Inl (FileNotFoundError p) | Some n \<Rightarrow> Inr (mtime n))"

text \<open>
  \<^verbatim>\<open>os.makedirs(name)\<close>: every missing directory on the way to \<^verbatim>\<open>name\<close> is created,
  then \<^verbatim>\<open>name\<close> itself, which must not exist. \<open>ancestors\<close> lists these directories for an
  absolute path, the shortest first, without the root.
\<close>

definition ancestors :: "string \<Rightarrow> string list" where
  "ancestors p =
     filter (\<lambda>q. q \<noteq> [])
       (map (\<lambda>i. rstrip os_sep (take i p)) (filter (\<lambda>i. p ! i = os_sep) [0..<length p]))
     @ [p]"

fun mkdir_chain :: "string list \<Rightarrow> filesystem \<Rightarrow> filesystem io" where
  "mkdir_chain [] fs = Inr fs"
| "mkdir_chain [p] fs =
     (case nodes fs p of
        None \<Rightarrow> Inr (fs\<lparr>nodes := (nodes fs)(p \<mapsto> Directory (today fs))\<rparr>)
      | Some n \<Rightarrow> Inl (FileExistsError p, fs))"
| "mkdir_chain (p # q # ps) fs =
     (case nodes fs p of
        None \<Rightarrow> mkdir_chain (q # ps) (fs\<lparr>nodes := (nodes fs)(p \<mapsto> Directory (today fs))\<rparr>)
      | Some (Directory m) \<Rightarrow> mkdir_chain (q # ps) fs
      | Some (RegularFile b m) \<Rightarrow> Inl (NotADirectoryError q, fs))"

definition os_makedirs :: "string \<Rightarrow> filesystem \<Rightarrow> filesystem io" where
  "os_makedirs p fs =
     (if p = [] then Inl (FileNotFoundError p, fs)
      else mkdir_chain (ancestors (fs_key fs p)) fs)"

text \<open>
  \<^verbatim>\<open>shutil.copyfile(src, dst)\<close>: refuses to copy a file onto itself (both paths exist and
  are the same file), opens the source, opens (creates or truncates) the destination,
  then writes the bytes. A destination that is empty, ends with a slash or is a
  directory cannot be opened for writing, and its directory must exist. When the device
  accepts fewer bytes than the source has, the destination keeps what was written and
  the call raises.
\<close>

definition shutil_copyfile :: "string \<Rightarrow> string \<Rightarrow> filesystem \<Rightarrow> filesystem io" where
  "shutil_copyfile src dst fs =
     (if node_at fs src \<noteq> None \<and> node_at fs dst \<noteq> None \<and> fs_key fs src = fs_key fs dst
      then Inl (SameFileError src, fs)
      else case node_at fs src of
        None \<Rightarrow> Inl (FileNotFoundError src, fs)
      | Some (Directory m) \<Rightarrow> Inl (IsADirectoryError src, fs)
      | Some (RegularFile bytes m) \<Rightarrow>
          if dst = [] then Inl (FileNotFoundError dst, fs)
          else if endswith dst [os_sep] then Inl (IsADirectoryError dst, fs)
          else
            (case nodes fs (fs_key fs dst) of
               Some (Directory m') \<Rightarrow> Inl (IsADirectoryError dst, fs)
             | _ \<Rightarrow>
                 (case nodes fs (path_dirname (fs_key fs dst)) of
                    None \<Rightarrow> Inl (FileNotFoundError dst, fs)
                  | Some (RegularFile b' m') \<Rightarrow> Inl (NotADirectoryError dst, fs)
                  | Some (Directory m') \<Rightarrow>
                      (case write_limit fs (fs_key fs dst) of
                         None \<Rightarrow>
                           Inr (fs\<lparr>nodes := (nodes fs)
                                  (fs_key fs dst \<mapsto> RegularFile bytes (today fs))\<rparr>)
                       | Some n \<Rightarrow>
                           if n < length bytes
                           then Inl (OSError dst,
                                  fs\<lparr>nodes := (nodes fs)
                                    (fs_key fs dst \<mapsto> RegularFile (take n bytes) (today fs))\<rparr>)
                           else Inr (fs\<lparr>nodes := (nodes fs)
                                  (fs_key fs dst \<mapsto> RegularFile bytes (today fs))\<rparr>)))))"

text \<open>\<^verbatim>\<open>os.remove(p)\<close>.\<close>

definition os_remove :: "string \<Rightarrow> filesystem \<Rightarrow> filesystem io" where
  "os_remove p fs =
     (case node_at fs p of
        None \<Rightarrow> Inl (FileNotFoundError p, fs)
      | Some (Directory m) \<Rightarrow> Inl (IsADirectoryError p, fs)
      | Some (RegularFile b m) \<Rightarrow> Inr (fs\<lparr>nodes := (nodes fs)(fs_key fs p := None)\<rparr>))"

subsection \<open>\<^verbatim>\<open>move_xdev_file\<close>\<close>

text \<open>
  Lines 183 to 188: the destination directory is created when it is missing and
  \<^verbatim>\<open>mkdirs\<close> is set, and required to exist otherwise.
\<close>

definition ensure_directory :: "string \<Rightarrow> bool \<Rightarrow> filesystem \<Rightarrow> filesystem io" where
  "ensure_directory dst_dirname mkdirs fs =
     (if mkdirs
      then (if \<not> path_exists fs dst_dirname then os_makedirs dst_dirname fs else Inr fs)
      else (if \<not> path_exists fs dst_dirname
            then Inl (DestinationDirectoryMissing dst_dirname, fs)
            else Inr fs))"

text \<open>
  Lines 173 to 196: after the directory, the file is copied, and then the old file is
  removed. An exception of any step ends the call there.
\<close>

definition move_xdev_file :: "string \<Rightarrow> string \<Rightarrow> bool \<Rightarrow> filesystem \<Rightarrow> filesystem io" where
  "move_xdev_file src_filename dst_filename mkdirs fs =
     (let dst_dirname = path_dirname dst_filename
      in case ensure_directory dst_dirname mkdirs fs of
           Inl e \<Rightarrow> Inl e
         | Inr fs1 \<Rightarrow>
             (case shutil_copyfile src_filename dst_filename fs1 of
                Inl e \<Rightarrow> Inl e
              | Inr fs2 \<Rightarrow> os_remove src_filename fs2))"

text \<open>The loop of lines 167 and 168 over the jobs.\<close>

fun move_jobs :: "bool \<Rightarrow> (string \<times> string) list \<Rightarrow> filesystem \<Rightarrow> filesystem io" where
  "move_jobs mkdirs [] fs = Inr fs"
| "move_jobs mkdirs ((old_filename, new_filename) # rest) fs =
     (case move_xdev_file old_filename new_filename mkdirs fs of
        Inl e \<Rightarrow> Inl e
      | Inr fs' \<Rightarrow> move_jobs mkdirs rest fs')"

subsection \<open>Importers, flags and the state of the resolution loop\<close>

text \<open>
  An importer is an object with the methods \<^verbatim>\<open>file_account\<close>, \<^verbatim>\<open>file_date\<close>,
  \<^verbatim>\<open>file_name\<close> and \<^verbatim>\<open>name\<close>. The first three take the \<^verbatim>\<open>cache.FileMemo\<close> of the file
  and may return \<^verbatim>\<open>None\<close>.
\<close>

text \<open>
  Modelled from the spec: \<^verbatim>\<open>cache.FileMemo\<close> is not among the sources. The spec's
  FileHandle owns a path and caches inspections of the file; \<^verbatim>\<open>file\<close> reads only its
  attribute \<^verbatim>\<open>name\<close>, the path it was built from. A memo is that path.
\<close>

type_synonym file_memo = string

record importer =
  file_account :: "file_memo \<Rightarrow> string option"
  file_date :: "file_memo \<Rightarrow> date option"
  file_name :: "file_memo \<Rightarrow> string option"
  name :: string

text \<open>
  Modelled from the spec: \<^verbatim>\<open>account.sep\<close> of \<^verbatim>\<open>beancount.core.account\<close> is not among
  the sources. It is the account-hierarchy separator, a colon in the spec's account
  \<^verbatim>\<open>Assets:Bank:Checking\<close>.
\<close>

definition account_sep :: char where
  "account_sep = CHR '':''"

text \<open>
  The arguments of \<^verbatim>\<open>file\<close> other than the files and the log file. \<^verbatim>\<open>misc_utils.idify\<close>
  is not among the sources: it is a parameter here.
\<close>

record config =
  destination :: string
  dry_run :: bool
  mkdirs :: bool
  overwrite :: bool
  idify :: bool
  misc_utils_idify :: "string \<Rightarrow> string"

text \<open>
  The calls of \<^verbatim>\<open>logging.error\<close>, each with what its message is formatted from.
\<close>

datatype log_error =
    NoAccountProvided "string list"
  | AmbiguousAccounts "string set"
  | DatedFileName
  | DestinationDirMissing string
  | DestinationExists string

text \<open>
  The variables of the loop of lines 61 to 159 that outlive an iteration, with the
  records logged so far and what was written to \<^verbatim>\<open>logfile\<close> (\<^term>\<open>None\<close>: no log
  file).
\<close>

record resolve_state =
  jobs :: "(string \<times> string) list"
  has_errors :: bool
  logging :: "log_error list"
  logfile :: "string list option"

definition logging_error :: "log_error \<Rightarrow> resolve_state \<Rightarrow> resolve_state" where
  "logging_error e st = st\<lparr>logging := logging st @ [e]\<rparr>"

subsection \<open>The body of the loop of \<^verbatim>\<open>file\<close>\<close>

text \<open>
  Lines 75 to 77: the set of the accounts that the importers give, without \<^verbatim>\<open>None\<close>.
  The Python set is a list without duplicates here; only its emptiness, its size and,
  when it has one element, that element are used, and the message of line 84 keeps it
  as a set.
\<close>

definition collect_accounts :: "importer list \<Rightarrow> file_memo \<Rightarrow> string list" where
  "collect_accounts importers file =
     remdups (List.map_filter (\<lambda>importer. file_account importer file) importers)"

text \<open>
  Lines 103 to 108: the date of the importer, or the date of the last modification,
  and the tag \<^verbatim>\<open>date_source\<close> that goes with it.
\<close>

definition resolve_date :: "importer \<Rightarrow> file_memo \<Rightarrow> date \<Rightarrow> date \<times> string" where
  "resolve_date importer file mtime_date =
     (case file_date importer file of
        Some date \<Rightarrow> (date, ''mtime'')
      | None \<Rightarrow> (mtime_date, ''extracted''))"

text \<open>The test \<^verbatim>\<open>re.match('\d\d\d\d-\d\d-\d\d', s)\<close> of line 115.\<close>

definition is_digit :: "char \<Rightarrow> bool" where
  "is_digit c = (c \<in> set ''0123456789'')"

definition match_date_prefix :: "string \<Rightarrow> bool" where
  "match_date_prefix s =
     (case s of
        y1 # y2 # y3 # y4 # h1 # m1 # m2 # h2 # d1 # d2 # rest \<Rightarrow>
          is_digit y1 \<and> is_digit y2 \<and> is_digit y3 \<and> is_digit y4 \<and> h1 = CHR ''-''
          \<and> is_digit m1 \<and> is_digit m2 \<and> h2 = CHR ''-'' \<and> is_digit d1 \<and> is_digit d2
      | _ \<Rightarrow> False)"

text \<open>
  Lines 112 to 124: the name of the importer or else the name of the file, without its
  directory part, and \<^verbatim>\<open>idify\<close> applied when asked for.
\<close>

definition clean_basename_of :: "config \<Rightarrow> importer \<Rightarrow> file_memo \<Rightarrow> string" where
  "clean_basename_of cfg importer file =
     (let clean_filename = (case file_name importer file of None \<Rightarrow> file | Some n \<Rightarrow> n);
          clean_basename = path_basename clean_filename
      in if idify cfg then misc_utils_idify cfg clean_basename else clean_basename)"

text \<open>Lines 127 to 132: the date prefix and the destination directory.\<close>

definition new_fullname_of :: "string \<Rightarrow> string \<Rightarrow> date \<Rightarrow> string \<Rightarrow> string" where
  "new_fullname_of dest account date clean_basename =
     (let new_filename = format_date date @ ''.'' @ clean_basename
      in normpath (path_join dest [str_replace account_sep os_sep account, new_filename]))"

text \<open>
  Lines 136 to 143: the lines written to the log file for one file. The list of the
  importers is not empty there, so the empty line of line 138 is always written, and an
  importer object is true, so line 139 writes its name. Line 141 formats \<^verbatim>\<open>mtime_date\<close>.
\<close>

definition newline :: string where
  "newline = [CHR 0x0A]"

definition report_block ::
  "string \<Rightarrow> importer \<Rightarrow> string \<Rightarrow> date \<Rightarrow> string \<Rightarrow> string \<Rightarrow> string list" where
  "report_block filename importer account mtime_date date_source new_fullname =
     [''=== '' @ filename @ newline,
      newline,
      ''  Importer:    '' @ name importer @ newline,
      ''  Account:     '' @ account @ newline,
      ''  Date:        '' @ isoformat mtime_date @ '' (from '' @ date_source @ '')'' @ newline,
      ''  Destination: '' @ new_fullname @ newline,
      newline]"

text \<open>
  Lines 89 to 159, for a file whose account (the local variable
  \<^verbatim>\<open>file_account\<close>) is \<open>account\<close> and whose first importer
  is \<open>importer\<close>.
\<close>

definition file_with_account ::
  "config \<Rightarrow> filesystem \<Rightarrow> string \<Rightarrow> importer \<Rightarrow> string \<Rightarrow> resolve_state
     \<Rightarrow> resolve_state io" where
  "file_with_account cfg fs filename importer account st =
     (case getmtime_date fs filename of
        Inl e \<Rightarrow> Inl (e, st)
      | Inr mtime_date \<Rightarrow>
          let (date, date_source) = resolve_date importer filename mtime_date;
              st1 = (case file_name importer filename of
                       None \<Rightarrow> st
                     | Some clean_filename \<Rightarrow>
                         if match_date_prefix clean_filename then logging_error DatedFileName st
                         else st);
              clean_basename = clean_basename_of cfg importer filename;
              new_fullname = new_fullname_of (destination cfg) account date clean_basename;
              st2 = (case logfile st1 of
                       None \<Rightarrow> st1
                     | Some written \<Rightarrow>
                         st1\<lparr>logfile := Some (written @ report_block filename importer
                                account mtime_date date_source new_fullname)\<rparr>);
              new_dirname = path_dirname new_fullname
          in if \<not> path_exists fs new_dirname \<and> \<not> mkdirs cfg
             then Inr ((logging_error (DestinationDirMissing new_dirname) st2)
                         \<lparr>has_errors := True\<rparr>)
             else if \<not> overwrite cfg \<and> path_exists fs new_fullname
             then Inr ((logging_error (DestinationExists new_fullname) st2)
                         \<lparr>has_errors := True\<rparr>)
             else Inr (st2\<lparr>jobs := jobs st2 @ [(filename, new_fullname)]\<rparr>))"

text \<open>
  Lines 67 to 159, one iteration: a file without importers is skipped; so is, after an
  error record, a file for which the importers give no account or several.
\<close>

definition file_body ::
  "config \<Rightarrow> filesystem \<Rightarrow> string \<Rightarrow> importer list \<Rightarrow> resolve_state \<Rightarrow> resolve_state io" where
  "file_body cfg fs filename importers st =
     (case importers of
        [] \<Rightarrow> Inr st
      | importer # others \<Rightarrow>
          (case collect_accounts importers filename of
             [] \<Rightarrow> Inr (logging_error (NoAccountProvided (map name importers)) st)
           | account # rest \<Rightarrow>
               if length (account # rest) > 1
               then Inr (logging_error (AmbiguousAccounts (set (account # rest))) st)
               else file_with_account cfg fs filename importer account st))"

text \<open>
  The loop of line 61. Its list is what \<^verbatim>\<open>identify.find_imports\<close> yields, which is not
  among the sources: the files found, each with the importers that identify it.
\<close>

fun resolve_all ::
  "config \<Rightarrow> filesystem \<Rightarrow> (string \<times> importer list) list \<Rightarrow> resolve_state
     \<Rightarrow> resolve_state io" where
  "resolve_all cfg fs [] st = Inr st"
| "resolve_all cfg fs ((filename, importers) # rest) st =
     (case file_body cfg fs filename importers st of
        Inl e \<Rightarrow> Inl e
      | Inr st' \<Rightarrow> resolve_all cfg fs rest st')"

subsection \<open>\<^verbatim>\<open>file\<close>\<close>

text \<open>
  The function \<^verbatim>\<open>file\<close> is \<open>file_fn\<close> here (\<^verbatim>\<open>file\<close> is a keyword). Its arguments
  \<^verbatim>\<open>importer_config\<close> and \<^verbatim>\<open>files_or_directories\<close> are replaced by \<open>found\<close>, what
  \<^verbatim>\<open>identify.find_imports\<close> yields for them.
  What a call leaves behind: \<open>returned\<close> is the exception that ended it, or the value
  returned, which is \<^verbatim>\<open>None\<close> or the list of the jobs.
\<close>

record run =
  returned :: "error + (string \<times> string) list option"
  fs_after :: filesystem
  state_after :: resolve_state

definition initial_state :: "string list option \<Rightarrow> resolve_state" where
  "initial_state lf = \<lparr>jobs = [], has_errors = False, logging = [], logfile = lf\<rparr>"

definition file_fn ::
  "config \<Rightarrow> (string \<times> importer list) list \<Rightarrow> string list option \<Rightarrow> filesystem \<Rightarrow> run" where
  "file_fn cfg found lf fs =
     (case resolve_all cfg fs found (initial_state lf) of
        Inl (e, st) \<Rightarrow> \<lparr>returned = Inl e, fs_after = fs, state_after = st\<rparr>
      | Inr st \<Rightarrow>
          if dry_run cfg \<or> has_errors st
          then \<lparr>returned = Inr None, fs_after = fs, state_after = st\<rparr>
          else (case move_jobs (mkdirs cfg) (jobs st) fs of
                  Inl (e, fs') \<Rightarrow> \<lparr>returned = Inl e, fs_after = fs', state_after = st\<rparr>
                | Inr fs' \<Rightarrow>
                    \<lparr>returned = Inr (Some (jobs st)), fs_after = fs', state_after = st\<rparr>))"

subsection \<open>Concrete importers, flags and file systems\<close>

text \<open>The inputs at which the theorems below are evaluated.\<close>

definition june_8 :: date where
  "june_8 = \<lparr>year = 2014, month = 6, day = 8\<rparr>"

definition may_31 :: date where
  "may_31 = \<lparr>year = 2014, month = 5, day = 31\<rparr>"

definition july_1 :: date where
  "july_1 = \<lparr>year = 2014, month = 7, day = 1\<rparr>"

definition importer_checking :: importer where
  "importer_checking =
     \<lparr>file_account = (\<lambda>f. Some ''Assets:Bank:Checking''), file_date = (\<lambda>f. None),
      file_name = (\<lambda>f. None), name = ''A''\<rparr>"

definition importer_silent :: importer where
  "importer_silent =
     \<lparr>file_account = (\<lambda>f. None), file_date = (\<lambda>f. None), file_name = (\<lambda>f. None),
      name = ''N''\<rparr>"

definition importer_a :: importer where
  "importer_a =
     \<lparr>file_account = (\<lambda>f. Some ''Assets:A''), file_date = (\<lambda>f. None),
      file_name = (\<lambda>f. None), name = ''ImpA''\<rparr>"

definition importer_b :: importer where
  "importer_b =
     \<lparr>file_account = (\<lambda>f. Some ''Assets:B''), file_date = (\<lambda>f. None),
      file_name = (\<lambda>f. None), name = ''ImpB''\<rparr>"

definition importer_dated :: importer where
  "importer_dated =
     \<lparr>file_account = (\<lambda>f. Some ''Assets:Bank:Checking''), file_date = (\<lambda>f. Some may_31),
      file_name = (\<lambda>f. Some ''tmp/may.pdf''), name = ''D''\<rparr>"

definition docs_config :: config where
  "docs_config =
     \<lparr>destination = ''/docs'', dry_run = False, mkdirs = True, overwrite = False,
      idify = False, misc_utils_idify = (\<lambda>s. s)\<rparr>"

definition inbox_fs :: filesystem where
  "inbox_fs =
     \<lparr>nodes = [''/'' \<mapsto> Directory may_31,
               ''/docs'' \<mapsto> Directory may_31,
               ''/home'' \<mapsto> Directory may_31,
               ''/home/user'' \<mapsto> Directory may_31,
               ''/home/user/in'' \<mapsto> Directory may_31,
               ''/home/user/in/a'' \<mapsto> Directory may_31,
               ''/home/user/in/b'' \<mapsto> Directory may_31,
               ''/home/user/statement.pdf'' \<mapsto> RegularFile ''%PDF'' june_8,
               ''/home/user/in/statement.pdf'' \<mapsto> RegularFile ''%PDF-1'' june_8,
               ''/home/user/in/unknown.csv'' \<mapsto> RegularFile ''a,b'' june_8,
               ''/home/user/in/invoice.csv'' \<mapsto> RegularFile ''c,d'' june_8,
               ''/home/user/in/a/x.pdf'' \<mapsto> RegularFile ''first'' june_8,
               ''/home/user/in/b/x.pdf'' \<mapsto> RegularFile ''second'' june_8],
      cwd = ''/home/user'', today = july_1, write_limit = Map.empty\<rparr>"

text \<open>The same file system on a device that accepts two bytes for the first destination.\<close>

definition full_disk_fs :: filesystem where
  "full_disk_fs =
     inbox_fs\<lparr>write_limit := [''/docs/Assets/Bank/Checking/2014-06-08.x.pdf'' \<mapsto> 2]\<rparr>"

section \<open>Properties\<close>

subsection \<open>Unfolding on concrete inputs\<close>

lemmas path_defs =
  normpath_def path_join_def join_step_def startswith_def endswith_def os_sep_def
  str_replace_def format_date_def strftime_Y_def isoformat_def pad2_def pad4_def
  digit_char_def path_basename_def
  path_dirname_def rfind_sep_plus1_def initial_slashes_of_def account_sep_def rstrip_def

lemmas run_defs =
  file_fn_def initial_state_def file_body_def collect_accounts_def List.map_filter_def
  file_with_account_def getmtime_date_def resolve_date_def clean_basename_of_def
  new_fullname_of_def path_exists_def node_at_def fs_key_def move_xdev_file_def
  ensure_directory_def
  os_makedirs_def ancestors_def
  shutil_copyfile_def os_remove_def logging_error_def report_block_def
  match_date_prefix_def is_digit_def newline_def

lemmas example_defs =
  june_8_def may_31_def july_1_def importer_checking_def importer_silent_def
  importer_a_def importer_b_def importer_dated_def docs_config_def inbox_fs_def
  full_disk_fs_def

subsection \<open>The loop over the files\<close>

lemma resolve_all_append:
  "resolve_all cfg fs (xs @ ys) st =
     (case resolve_all cfg fs xs st of Inl e \<Rightarrow> Inl e | Inr st' \<Rightarrow> resolve_all cfg fs ys st')"
  by (induction xs arbitrary: st) (auto split: sum.splits)

lemma file_body_no_importers: "file_body cfg fs filename [] st = Inr st"
  by (simp add: file_body_def)

lemma set_collect_accounts:
  "set (collect_accounts importers f) = {a. \<exists>importer \<in> set importers. file_account importer f = Some a}"
  unfolding collect_accounts_def
  by (induction importers) (auto simp: map_filter_simps split: option.splits)

lemma distinct_collect_accounts: "distinct (collect_accounts importers f)"
  by (simp add: collect_accounts_def)

lemma distinct_singleton: "distinct xs \<Longrightarrow> set xs = {a} \<Longrightarrow> xs = [a]"
  by (cases xs) (auto simp: subset_singleton_iff dest!: sym [of _ "{a}"])

lemma file_with_account_result:
  assumes "file_with_account cfg fs filename importer account st = Inr st'"
  shows "\<exists>m. getmtime_date fs filename = Inr m \<and>
           (jobs st' = jobs st \<and> has_errors st'
            \<or> jobs st' = jobs st @ [(filename, new_fullname_of (destination cfg) account
                   (fst (resolve_date importer filename m)) (clean_basename_of cfg importer filename))]
              \<and> has_errors st' = has_errors st
              \<and> (mkdirs cfg \<or> path_exists fs (path_dirname (new_fullname_of (destination cfg) account
                   (fst (resolve_date importer filename m)) (clean_basename_of cfg importer filename))))
              \<and> (overwrite cfg \<or> \<not> path_exists fs (new_fullname_of (destination cfg) account
                   (fst (resolve_date importer filename m)) (clean_basename_of cfg importer filename))))"
  using assms
  by (auto simp: file_with_account_def Let_def logging_error_def
           split: sum.splits prod.splits option.splits if_splits)

lemma file_body_result:
  assumes "file_body cfg fs filename importers st = Inr st'"
  shows "jobs st' = jobs st
         \<or> (\<exists>importer others account m.
               importers = importer # others
               \<and> collect_accounts importers filename = [account]
               \<and> getmtime_date fs filename = Inr m
               \<and> jobs st' = jobs st @ [(filename, new_fullname_of (destination cfg) account
                   (fst (resolve_date importer filename m)) (clean_basename_of cfg importer filename))]
               \<and> has_errors st' = has_errors st
               \<and> (mkdirs cfg \<or> path_exists fs (path_dirname (new_fullname_of (destination cfg) account
                   (fst (resolve_date importer filename m)) (clean_basename_of cfg importer filename))))
               \<and> (overwrite cfg \<or> \<not> path_exists fs (new_fullname_of (destination cfg) account
                   (fst (resolve_date importer filename m)) (clean_basename_of cfg importer filename))))"
proof (cases importers)
  case Nil
  with assms show ?thesis by (simp add: file_body_def)
next
  case (Cons importer others)
  show ?thesis
  proof (cases "collect_accounts importers filename")
    case Nil
    with assms Cons show ?thesis by (auto simp add: file_body_def logging_error_def)
  next
    case accs: (Cons account rest)
    show ?thesis
    proof (cases rest)
      case Nil
      with assms Cons accs
      have "file_with_account cfg fs filename importer account st = Inr st'"
        by (simp add: file_body_def)
      from file_with_account_result [OF this] Cons accs Nil show ?thesis
        by auto
    next
      case (Cons b more)
      with assms accs \<open>importers = importer # others\<close> show ?thesis
        by (auto simp add: file_body_def logging_error_def)
    qed
  qed
qed

lemma resolve_all_jobs:
  assumes "resolve_all cfg fs found st = Inr st'"
    and "\<forall>j \<in> set (jobs st). P j"
    and "\<And>f imps s s' j. (f, imps) \<in> set found \<Longrightarrow> file_body cfg fs f imps s = Inr s'
            \<Longrightarrow> jobs s' = jobs s @ [j] \<Longrightarrow> P j"
  shows "\<forall>j \<in> set (jobs st'). P j"
  using assms
proof (induction found arbitrary: st)
  case Nil
  then show ?case by simp
next
  case (Cons x found)
  obtain f imps where x: "x = (f, imps)" by (cases x)
  from Cons.prems(1) x obtain s1 where s1: "file_body cfg fs f imps st = Inr s1"
    and rest: "resolve_all cfg fs found s1 = Inr st'"
    by (auto split: sum.splits)
  have "\<forall>j \<in> set (jobs s1). P j"
  proof -
    from file_body_result [OF s1] consider "jobs s1 = jobs st" | j where "jobs s1 = jobs st @ [j]"
      by blast
    then show ?thesis
    proof cases
      case 1
      with Cons.prems(2) show ?thesis by simp
    next
      case 2
      have "P j" using Cons.prems(3) [of f imps st s1 j] x s1 2 by simp
      with 2 Cons.prems(2) show ?thesis by simp
    qed
  qed
  then show ?case
    using Cons.IH [OF rest] Cons.prems(3) by (metis list.set_intros(2))
qed

lemma collect_accounts_single:
  "file_account importer filename = Some account \<Longrightarrow> collect_accounts [importer] filename = [account]"
  by (simp add: collect_accounts_def map_filter_simps)

lemma file_with_account_job:
  assumes "getmtime_date fs filename = Inr m"
    and "mkdirs cfg \<or> path_exists fs (path_dirname (new_fullname_of (destination cfg) account
            (fst (resolve_date importer filename m)) (clean_basename_of cfg importer filename)))"
    and "overwrite cfg \<or> \<not> path_exists fs (new_fullname_of (destination cfg) account
            (fst (resolve_date importer filename m)) (clean_basename_of cfg importer filename))"
  shows "\<exists>st'. file_with_account cfg fs filename importer account st = Inr st'
           \<and> jobs st' = jobs st @ [(filename, new_fullname_of (destination cfg) account
                (fst (resolve_date importer filename m)) (clean_basename_of cfg importer filename))]
           \<and> has_errors st' = has_errors st"
  using assms
  by (auto simp: file_with_account_def Let_def logging_error_def
           split: sum.splits prod.splits option.splits if_splits)

lemma file_with_account_returns:
  assumes "getmtime_date fs filename = Inr m"
  shows "\<exists>st'. file_with_account cfg fs filename importer account st = Inr st'"
  using assms
  by (auto simp: file_with_account_def Let_def split: sum.splits prod.splits option.splits if_splits)

lemma fst_resolve_date:
  "fst (resolve_date importer filename m)
     = (case file_date importer filename of Some d \<Rightarrow> d | None \<Rightarrow> m)"
  by (simp add: resolve_date_def split: option.splits)

text \<open>
  C9. A file that no importer identifies leaves the state of the loop as it is: no job
  is added, no error is logged, \<^verbatim>\<open>has_errors\<close> keeps its value and nothing is written
  to the log file. The loop and the whole call give the same result with or without
  such a file among those found.
\<close>

theorem unmatched_file_is_skipped:
  "file_body cfg fs filename [] st = Inr st
   \<and> resolve_all cfg fs (xs @ (filename, []) # ys) st = resolve_all cfg fs (xs @ ys) st
   \<and> file_fn cfg (xs @ (filename, []) # ys) lf fs = file_fn cfg (xs @ ys) lf fs"
proof -
  have skip: "resolve_all cfg fs (xs @ (filename, []) # ys) s = resolve_all cfg fs (xs @ ys) s"
    for s
    by (simp add: resolve_all_append file_body_no_importers split: sum.splits)
  show ?thesis
    by (simp add: skip file_body_no_importers file_fn_def)
qed

theorem unmatched_file_is_skipped_witness:
  "returned (file_fn docs_config
      ([(''in/statement.pdf'', [importer_checking])] @ (''in/unknown.csv'', []) # []) None inbox_fs)
   = Inr (Some [(''in/statement.pdf'', ''/docs/Assets/Bank/Checking/2014-06-08.statement.pdf'')])
   \<and> logging (state_after (file_fn docs_config
      ([(''in/statement.pdf'', [importer_checking])] @ (''in/unknown.csv'', []) # []) None inbox_fs))
   = []"
proof -
  have skip: "file_fn docs_config
          ([(''in/statement.pdf'', [importer_checking])] @ (''in/unknown.csv'', []) # []) None inbox_fs
        = file_fn docs_config ([(''in/statement.pdf'', [importer_checking])] @ []) None inbox_fs"
    using unmatched_file_is_skipped
      [of docs_config inbox_fs "''in/unknown.csv''" _
          "[(''in/statement.pdf'', [importer_checking])]" "[]" None]
    by blast
  have r: "returned (file_fn docs_config ([(''in/statement.pdf'', [importer_checking])] @ []) None
             inbox_fs)
           = Inr (Some [(''in/statement.pdf'',
                         ''/docs/Assets/Bank/Checking/2014-06-08.statement.pdf'')])"
    by code_simp
  have l: "logging (state_after (file_fn docs_config
             ([(''in/statement.pdf'', [importer_checking])] @ []) None inbox_fs)) = []"
    by code_simp
  from r l show ?thesis unfolding skip by (rule conjI)
qed

subsection \<open>Account resolution\<close>

text \<open>
  C2. For a file with at least one importer, take the set of the accounts that its
  importers give (the results of \<^verbatim>\<open>file_account\<close> other than \<^verbatim>\<open>None\<close>). If the set is
  empty, the iteration logs that no account was provided, with the names of the
  importers, and changes nothing else: no job is added. If it has more than one
  element, the iteration logs the ambiguity with the whole set and changes nothing
  else. If it is a single account, the rest of the iteration runs with that account
  and the first importer, and a job it adds has the destination built from that
  account.
\<close>

theorem account_resolution:
  assumes "importers \<noteq> []"
  shows "({a. \<exists>importer \<in> set importers. file_account importer filename = Some a} = {}
           \<longrightarrow> file_body cfg fs filename importers st
               = Inr (st\<lparr>logging := logging st @ [NoAccountProvided (map name importers)]\<rparr>))
       \<and> (card {a. \<exists>importer \<in> set importers. file_account importer filename = Some a} > 1
           \<longrightarrow> file_body cfg fs filename importers st
               = Inr (st\<lparr>logging := logging st @ [AmbiguousAccounts
                   {a. \<exists>importer \<in> set importers. file_account importer filename = Some a}]\<rparr>))
       \<and> (\<forall>account.
             {a. \<exists>importer \<in> set importers. file_account importer filename = Some a} = {account}
             \<longrightarrow> file_body cfg fs filename importers st
                   = file_with_account cfg fs filename (hd importers) account st
                 \<and> (\<forall>st'. file_body cfg fs filename importers st = Inr st'
                       \<longrightarrow> jobs st' = jobs st
                           \<or> (\<exists>date. jobs st' = jobs st @ [(filename,
                                 new_fullname_of (destination cfg) account date
                                   (clean_basename_of cfg (hd importers) filename))])))"
proof -
  let ?S = "{a. \<exists>importer \<in> set importers. file_account importer filename = Some a}"
  let ?accs = "collect_accounts importers filename"
  from assms obtain importer others where imps: "importers = importer # others"
    by (cases importers) auto
  have S: "set ?accs = ?S" by (rule set_collect_accounts)
  have d: "distinct ?accs" by (rule distinct_collect_accounts)
  have none: "file_body cfg fs filename importers st
                = Inr (st\<lparr>logging := logging st @ [NoAccountProvided (map name importers)]\<rparr>)"
    if "?S = {}"
  proof -
    from that S have "?accs = []" by simp
    with imps show ?thesis by (simp add: file_body_def logging_error_def)
  qed
  have many: "file_body cfg fs filename importers st
                = Inr (st\<lparr>logging := logging st @ [AmbiguousAccounts ?S]\<rparr>)"
    if "card ?S > 1"
  proof -
    from that S d have len: "length ?accs > 1" by (metis distinct_card)
    then obtain a rest where accs: "?accs = a # rest" by (cases ?accs) auto
    with len S have "set (a # rest) = ?S" "length (a # rest) > 1" by simp_all
    with imps accs show ?thesis by (simp add: file_body_def logging_error_def)
  qed
  have one: "file_body cfg fs filename importers st
                = file_with_account cfg fs filename (hd importers) account st
             \<and> (\<forall>st'. file_body cfg fs filename importers st = Inr st'
                   \<longrightarrow> jobs st' = jobs st
                      \<or> (\<exists>date. jobs st' = jobs st @ [(filename,
                             new_fullname_of (destination cfg) account date
                               (clean_basename_of cfg (hd importers) filename))]))"
    if "?S = {account}" for account
  proof -
    from that S d have accs: "?accs = [account]" by (simp add: distinct_singleton)
    with imps have eq: "file_body cfg fs filename importers st
                = file_with_account cfg fs filename (hd importers) account st"
      by (simp add: file_body_def)
    moreover have "jobs st' = jobs st
                      \<or> (\<exists>date. jobs st' = jobs st @ [(filename,
                             new_fullname_of (destination cfg) account date
                               (clean_basename_of cfg (hd importers) filename))])"
      if "file_body cfg fs filename importers st = Inr st'" for st'
      using file_body_result [OF that] accs imps by auto
    ultimately show ?thesis by blast
  qed
  from none many one show ?thesis by blast
qed

theorem account_resolution_witness:
  "file_body docs_config inbox_fs ''in/unknown.csv'' [importer_silent] (initial_state None)
     = Inr ((initial_state None)\<lparr>logging := [NoAccountProvided [''N'']]\<rparr>)
   \<and> file_body docs_config inbox_fs ''in/invoice.csv'' [importer_a, importer_b] (initial_state None)
     = Inr ((initial_state None)\<lparr>logging := [AmbiguousAccounts {''Assets:A'', ''Assets:B''}]\<rparr>)
   \<and> file_body docs_config inbox_fs ''in/statement.pdf'' [importer_checking, importer_silent]
        (initial_state None)
     = file_with_account docs_config inbox_fs ''in/statement.pdf'' importer_checking
         ''Assets:Bank:Checking'' (initial_state None)"
proof -
  have s0: "{a. \<exists>importer \<in> set [importer_silent].
               file_account importer ''in/unknown.csv'' = Some a} = {}"
    by (simp add: importer_silent_def)
  have s2: "{a. \<exists>importer \<in> set [importer_a, importer_b].
               file_account importer ''in/invoice.csv'' = Some a} = {''Assets:A'', ''Assets:B''}"
    by (auto simp add: importer_a_def importer_b_def)
  have s1: "{a. \<exists>importer \<in> set [importer_checking, importer_silent].
               file_account importer ''in/statement.pdf'' = Some a} = {''Assets:Bank:Checking''}"
    by (auto simp add: importer_checking_def importer_silent_def)
  have c2: "card {''Assets:A'', ''Assets:B''} > 1" by simp
  have none: "file_body docs_config inbox_fs ''in/unknown.csv'' [importer_silent] (initial_state None)
     = Inr ((initial_state None)\<lparr>logging := [NoAccountProvided [''N'']]\<rparr>)"
    using account_resolution [of "[importer_silent]" "''in/unknown.csv''" docs_config inbox_fs
            "initial_state None"]
    unfolding s0 by (simp add: initial_state_def importer_silent_def)
  have many: "file_body docs_config inbox_fs ''in/invoice.csv'' [importer_a, importer_b]
        (initial_state None)
     = Inr ((initial_state None)\<lparr>logging := [AmbiguousAccounts {''Assets:A'', ''Assets:B''}]\<rparr>)"
    using account_resolution [of "[importer_a, importer_b]" "''in/invoice.csv''" docs_config
            inbox_fs "initial_state None"] c2
    unfolding s2 by (simp add: initial_state_def)
  have one: "file_body docs_config inbox_fs ''in/statement.pdf'' [importer_checking, importer_silent]
        (initial_state None)
     = file_with_account docs_config inbox_fs ''in/statement.pdf'' importer_checking
         ''Assets:Bank:Checking'' (initial_state None)"
    using account_resolution [of "[importer_checking, importer_silent]" "''in/statement.pdf''"
            docs_config inbox_fs "initial_state None"]
    unfolding s1 by simp
  from none many one show ?thesis by simp
qed

subsection \<open>A file with one importer\<close>

text \<open>
  C4. Let a file that exists be matched by exactly one importer, and let that importer
  give an account. Then the account that the iteration resolves is this account, and
  the date it resolves is the date that \<^verbatim>\<open>file_date\<close> returns, or the date of the last
  modification of the file when \<^verbatim>\<open>file_date\<close> returns \<^verbatim>\<open>None\<close>. The iteration returns;
  it either adds no job and sets \<^verbatim>\<open>has_errors\<close>, or adds the job whose destination is
  built from this account and this date; it adds the job whenever the checks of the
  destination pass.
\<close>

theorem single_importer_resolution:
  assumes "file_account importer filename = Some account"
    and "node_at fs filename = Some nd"
  shows "collect_accounts [importer] filename = [account]
     \<and> fst (resolve_date importer filename (mtime nd))
         = (case file_date importer filename of Some d \<Rightarrow> d | None \<Rightarrow> mtime nd)
     \<and> (\<exists>st'. file_body cfg fs filename [importer] st = Inr st'
           \<and> (jobs st' = jobs st \<and> has_errors st'
               \<or> jobs st' = jobs st @ [(filename, new_fullname_of (destination cfg) account
                     (case file_date importer filename of Some d \<Rightarrow> d | None \<Rightarrow> mtime nd)
                     (clean_basename_of cfg importer filename))]))
     \<and> ((mkdirs cfg \<or> path_exists fs (path_dirname (new_fullname_of (destination cfg) account
                     (case file_date importer filename of Some d \<Rightarrow> d | None \<Rightarrow> mtime nd)
                     (clean_basename_of cfg importer filename))))
          \<and> (overwrite cfg \<or> \<not> path_exists fs (new_fullname_of (destination cfg) account
                     (case file_date importer filename of Some d \<Rightarrow> d | None \<Rightarrow> mtime nd)
                     (clean_basename_of cfg importer filename)))
          \<longrightarrow> (\<exists>st'. file_body cfg fs filename [importer] st = Inr st'
                 \<and> jobs st' = jobs st @ [(filename, new_fullname_of (destination cfg) account
                     (case file_date importer filename of Some d \<Rightarrow> d | None \<Rightarrow> mtime nd)
                     (clean_basename_of cfg importer filename))]))"
proof -
  let ?D = "case file_date importer filename of Some d \<Rightarrow> d | None \<Rightarrow> mtime nd"
  let ?dst = "new_fullname_of (destination cfg) account ?D (clean_basename_of cfg importer filename)"
  have accs: "collect_accounts [importer] filename = [account]"
    using assms(1) by (rule collect_accounts_single)
  have date: "fst (resolve_date importer filename (mtime nd)) = ?D"
    by (rule fst_resolve_date)
  have m: "getmtime_date fs filename = Inr (mtime nd)"
    using assms(2) by (simp add: getmtime_date_def)
  have body: "file_body cfg fs filename [importer] st
                = file_with_account cfg fs filename importer account st"
    using accs by (simp add: file_body_def)
  from file_with_account_returns [OF m] obtain st'
    where st': "file_with_account cfg fs filename importer account st = Inr st'"
    by blast
  from file_with_account_result [OF st'] m date
  have "jobs st' = jobs st \<and> has_errors st' \<or> jobs st' = jobs st @ [(filename, ?dst)]"
    by auto
  with st' body have third: "\<exists>st'. file_body cfg fs filename [importer] st = Inr st'
           \<and> (jobs st' = jobs st \<and> has_errors st' \<or> jobs st' = jobs st @ [(filename, ?dst)])"
    by auto
  have fourth: "\<exists>st'. file_body cfg fs filename [importer] st = Inr st'
                 \<and> jobs st' = jobs st @ [(filename, ?dst)]"
    if "mkdirs cfg \<or> path_exists fs (path_dirname ?dst)" "overwrite cfg \<or> \<not> path_exists fs ?dst"
    using file_with_account_job [OF m, of cfg account importer st] that body date
    by auto
  from accs date third fourth show ?thesis by blast
qed

theorem single_importer_resolution_witness:
  "(\<exists>st'. file_body docs_config inbox_fs ''in/statement.pdf'' [importer_dated]
            (initial_state None) = Inr st'
         \<and> jobs st' = [(''in/statement.pdf'',
                          ''/docs/Assets/Bank/Checking/2014-05-31.may.pdf'')])
   \<and> (\<exists>st'. file_body docs_config inbox_fs ''in/statement.pdf'' [importer_checking]
            (initial_state None) = Inr st'
         \<and> jobs st' = [(''in/statement.pdf'',
                          ''/docs/Assets/Bank/Checking/2014-06-08.statement.pdf'')])"
proof -
  have n: "node_at inbox_fs ''in/statement.pdf'' = Some (RegularFile ''%PDF-1'' june_8)"
    by code_simp
  have a1: "file_account importer_dated ''in/statement.pdf'' = Some ''Assets:Bank:Checking''"
    by (simp add: importer_dated_def)
  have a2: "file_account importer_checking ''in/statement.pdf'' = Some ''Assets:Bank:Checking''"
    by (simp add: importer_checking_def)
  have d1: "new_fullname_of (destination docs_config) ''Assets:Bank:Checking''
              (case file_date importer_dated ''in/statement.pdf'' of Some d \<Rightarrow> d
               | None \<Rightarrow> mtime (RegularFile ''%PDF-1'' june_8))
              (clean_basename_of docs_config importer_dated ''in/statement.pdf'')
            = ''/docs/Assets/Bank/Checking/2014-05-31.may.pdf''"
    by code_simp
  have d2: "new_fullname_of (destination docs_config) ''Assets:Bank:Checking''
              (case file_date importer_checking ''in/statement.pdf'' of Some d \<Rightarrow> d
               | None \<Rightarrow> mtime (RegularFile ''%PDF-1'' june_8))
              (clean_basename_of docs_config importer_checking ''in/statement.pdf'')
            = ''/docs/Assets/Bank/Checking/2014-06-08.statement.pdf''"
    by code_simp
  have mk: "mkdirs docs_config" by (simp add: docs_config_def)
  have free1: "\<not> path_exists inbox_fs ''/docs/Assets/Bank/Checking/2014-05-31.may.pdf''"
    by code_simp
  have free2: "\<not> path_exists inbox_fs ''/docs/Assets/Bank/Checking/2014-06-08.statement.pdf''"
    by code_simp
  have j0: "jobs (initial_state None) = []" by (simp add: initial_state_def)
  note t1 = single_importer_resolution [OF a1 n, of docs_config "initial_state None",
      unfolded d1 j0]
  note t2 = single_importer_resolution [OF a2 n, of docs_config "initial_state None",
      unfolded d2 j0]
  from t1 mk free1 have first: "\<exists>st'. file_body docs_config inbox_fs ''in/statement.pdf''
            [importer_dated] (initial_state None) = Inr st'
         \<and> jobs st' = [(''in/statement.pdf'',
                          ''/docs/Assets/Bank/Checking/2014-05-31.may.pdf'')]"
    by simp
  from t2 mk free2 have second: "\<exists>st'. file_body docs_config inbox_fs ''in/statement.pdf''
            [importer_checking] (initial_state None) = Inr st'
         \<and> jobs st' = [(''in/statement.pdf'',
                          ''/docs/Assets/Bank/Checking/2014-06-08.statement.pdf'')]"
    by simp
  from first second show ?thesis by (rule conjI)
qed

subsection \<open>The destination path\<close>






subsection \<open>The gate before the moves\<close>

text \<open>
  Lines 163 and 164: with \<^verbatim>\<open>dry_run\<close> or \<^verbatim>\<open>has_errors\<close> set, the call returns \<^verbatim>\<open>None\<close> and
  the file system is the one it started from; otherwise the jobs are moved in the
  order of the list and the list is returned.
\<close>

lemma no_move_when_flagged:
  assumes "resolve_all cfg fs found (initial_state lf) = Inr st" and "dry_run cfg \<or> has_errors st"
  shows "file_fn cfg found lf fs = \<lparr>returned = Inr None, fs_after = fs, state_after = st\<rparr>"
  using assms by (simp add: file_fn_def)

lemma moves_when_not_flagged:
  assumes "resolve_all cfg fs found (initial_state lf) = Inr st"
    and "\<not> dry_run cfg" and "\<not> has_errors st"
    and "move_jobs (mkdirs cfg) (jobs st) fs = Inr fs'"
  shows "file_fn cfg found lf fs = \<lparr>returned = Inr (Some (jobs st)), fs_after = fs', state_after = st\<rparr>"
  using assms by (simp add: file_fn_def)

text \<open>
  C1. The claim is that an error for any file, also that no importer gives an account
  or that the importers give several, keeps every job from being moved. The two
  destination checks set \<^verbatim>\<open>has_errors\<close> (lines 149 and 156); the two account errors
  are logged with \<^verbatim>\<open>logging.error\<close> and followed by \<^verbatim>\<open>continue\<close> (lines 78 to 86)
  without setting it. Evaluated here: of two files found, the first has an importer
  that gives no account and the second is in order. The error is logged, and the second
  file is moved all the same: the call returns its job, the source is gone and the
  destination holds its bytes.
\<close>

theorem account_error_does_not_stop_moves:
  "logging (state_after (file_fn docs_config
       [(''in/unknown.csv'', [importer_silent]), (''in/statement.pdf'', [importer_checking])]
       None inbox_fs)) = [NoAccountProvided [''N'']]
   \<and> returned (file_fn docs_config
       [(''in/unknown.csv'', [importer_silent]), (''in/statement.pdf'', [importer_checking])]
       None inbox_fs)
     = Inr (Some [(''in/statement.pdf'', ''/docs/Assets/Bank/Checking/2014-06-08.statement.pdf'')])
   \<and> node_at (fs_after (file_fn docs_config
       [(''in/unknown.csv'', [importer_silent]), (''in/statement.pdf'', [importer_checking])]
       None inbox_fs)) ''in/statement.pdf'' = None
   \<and> node_at (fs_after (file_fn docs_config
       [(''in/unknown.csv'', [importer_silent]), (''in/statement.pdf'', [importer_checking])]
       None inbox_fs)) ''/docs/Assets/Bank/Checking/2014-06-08.statement.pdf''
     = Some (RegularFile ''%PDF-1'' july_1)"
proof (intro conjI)
  show "logging (state_after (file_fn docs_config
       [(''in/unknown.csv'', [importer_silent]), (''in/statement.pdf'', [importer_checking])]
       None inbox_fs)) = [NoAccountProvided [''N'']]"
    by code_simp
  show "returned (file_fn docs_config
       [(''in/unknown.csv'', [importer_silent]), (''in/statement.pdf'', [importer_checking])]
       None inbox_fs)
     = Inr (Some [(''in/statement.pdf'', ''/docs/Assets/Bank/Checking/2014-06-08.statement.pdf'')])"
    by code_simp
  show "node_at (fs_after (file_fn docs_config
       [(''in/unknown.csv'', [importer_silent]), (''in/statement.pdf'', [importer_checking])]
       None inbox_fs)) ''in/statement.pdf'' = None"
    by code_simp
  show "node_at (fs_after (file_fn docs_config
       [(''in/unknown.csv'', [importer_silent]), (''in/statement.pdf'', [importer_checking])]
       None inbox_fs)) ''/docs/Assets/Bank/Checking/2014-06-08.statement.pdf''
     = Some (RegularFile ''%PDF-1'' july_1)"
    by code_simp
qed

theorem account_error_does_not_stop_moves_witness:
  "node_at (fs_after (file_fn docs_config
       [(''in/unknown.csv'', [importer_silent]), (''in/statement.pdf'', [importer_checking])]
       None inbox_fs)) ''in/statement.pdf'' = None"
  using account_error_does_not_stop_moves by (elim conjE)

text \<open>
  C5. The claim is that the call changes nothing on disk and returns no jobs when
  \<^verbatim>\<open>dry_run\<close> is set or any error occurred during resolution. Evaluated here: the first
  of two files has two importers that give different accounts. The ambiguity is
  logged, \<^verbatim>\<open>has_errors\<close> stays false, the call returns the job of the second file and
  the file system has changed.
\<close>

theorem ambiguous_accounts_do_not_abort:
  "logging (state_after (file_fn docs_config
       [(''in/invoice.csv'', [importer_a, importer_b]), (''in/statement.pdf'', [importer_checking])]
       None inbox_fs)) = [AmbiguousAccounts {''Assets:A'', ''Assets:B''}]
   \<and> has_errors (state_after (file_fn docs_config
       [(''in/invoice.csv'', [importer_a, importer_b]), (''in/statement.pdf'', [importer_checking])]
       None inbox_fs)) = False
   \<and> returned (file_fn docs_config
       [(''in/invoice.csv'', [importer_a, importer_b]), (''in/statement.pdf'', [importer_checking])]
       None inbox_fs)
     = Inr (Some [(''in/statement.pdf'', ''/docs/Assets/Bank/Checking/2014-06-08.statement.pdf'')])
   \<and> fs_after (file_fn docs_config
       [(''in/invoice.csv'', [importer_a, importer_b]), (''in/statement.pdf'', [importer_checking])]
       None inbox_fs) \<noteq> inbox_fs"
proof -
  let ?r = "file_fn docs_config
       [(''in/invoice.csv'', [importer_a, importer_b]), (''in/statement.pdf'', [importer_checking])]
       None inbox_fs"
  have a: "logging (state_after ?r) = [AmbiguousAccounts {''Assets:A'', ''Assets:B''}]"
    by code_simp
  have b: "has_errors (state_after ?r) = False"
    by code_simp
  have c: "returned ?r
     = Inr (Some [(''in/statement.pdf'', ''/docs/Assets/Bank/Checking/2014-06-08.statement.pdf'')])"
    by code_simp
  have d: "node_at (fs_after ?r) ''in/statement.pdf'' = None"
    by code_simp
  have "node_at inbox_fs ''in/statement.pdf'' \<noteq> None" by code_simp
  with d have "fs_after ?r \<noteq> inbox_fs" by auto
  with a b c show ?thesis by simp
qed

theorem ambiguous_accounts_do_not_abort_witness:
  "fs_after (file_fn docs_config
       [(''in/invoice.csv'', [importer_a, importer_b]), (''in/statement.pdf'', [importer_checking])]
       None inbox_fs) \<noteq> inbox_fs"
  using ambiguous_accounts_do_not_abort by (elim conjE)

subsection \<open>Destinations of the jobs of one call\<close>

text \<open>
  What the check of line 154 gives: when \<^verbatim>\<open>overwrite\<close> is off, no job of the list that
  the loop ends with has a destination that exists in the file system the call started
  from. The check does not look at the jobs already listed.
\<close>

lemma jobs_avoid_existing_destinations:
  assumes "resolve_all cfg fs found (initial_state lf) = Inr st" and "\<not> overwrite cfg"
  shows "\<forall>(src, dst) \<in> set (jobs st). \<not> path_exists fs dst"
proof -
  have "\<forall>j \<in> set (jobs st). \<not> path_exists fs (snd j)"
  proof (rule resolve_all_jobs [OF assms(1)])
    show "\<forall>j \<in> set (jobs (initial_state lf)). \<not> path_exists fs (snd j)"
      by (simp add: initial_state_def)
  next
    fix f imps s s' j
    assume b: "file_body cfg fs f imps s = Inr s'" and j: "jobs s' = jobs s @ [j]"
    from file_body_result [OF b] j assms(2) show "\<not> path_exists fs (snd j)"
      by auto
  qed
  then show ?thesis by auto
qed

text \<open>
  C8. The claim is that no two jobs of a batch that reaches the moves have the same
  destination. The comment of lines 152 and 153 says that an existing destination must
  not be clobbered by accident, and \<^verbatim>\<open>overwrite\<close> is off here; but the check of line 154
  sees the file system before any move, so it misses a destination that an earlier job
  of the same batch is about to create. Evaluated here: two files \<^verbatim>\<open>x.pdf\<close> in two
  directories, with the same account and date, get the same destination. No error is
  logged, both jobs are moved, the second copy replaces the first, and both sources are
  removed: the bytes of the first file are lost.
\<close>

theorem shared_destination_loses_a_file:
  "returned (file_fn docs_config
       [(''in/a/x.pdf'', [importer_checking]), (''in/b/x.pdf'', [importer_checking])] None inbox_fs)
     = Inr (Some [(''in/a/x.pdf'', ''/docs/Assets/Bank/Checking/2014-06-08.x.pdf''),
                  (''in/b/x.pdf'', ''/docs/Assets/Bank/Checking/2014-06-08.x.pdf'')])
   \<and> logging (state_after (file_fn docs_config
       [(''in/a/x.pdf'', [importer_checking]), (''in/b/x.pdf'', [importer_checking])] None
       inbox_fs)) = []
   \<and> node_at (fs_after (file_fn docs_config
       [(''in/a/x.pdf'', [importer_checking]), (''in/b/x.pdf'', [importer_checking])] None inbox_fs))
       ''/docs/Assets/Bank/Checking/2014-06-08.x.pdf'' = Some (RegularFile ''second'' july_1)
   \<and> node_at (fs_after (file_fn docs_config
       [(''in/a/x.pdf'', [importer_checking]), (''in/b/x.pdf'', [importer_checking])] None inbox_fs))
       ''in/a/x.pdf'' = None
   \<and> node_at (fs_after (file_fn docs_config
       [(''in/a/x.pdf'', [importer_checking]), (''in/b/x.pdf'', [importer_checking])] None inbox_fs))
       ''in/b/x.pdf'' = None"
proof (intro conjI)
  show "returned (file_fn docs_config
       [(''in/a/x.pdf'', [importer_checking]), (''in/b/x.pdf'', [importer_checking])] None inbox_fs)
     = Inr (Some [(''in/a/x.pdf'', ''/docs/Assets/Bank/Checking/2014-06-08.x.pdf''),
                  (''in/b/x.pdf'', ''/docs/Assets/Bank/Checking/2014-06-08.x.pdf'')])"
    by code_simp
  show "logging (state_after (file_fn docs_config
       [(''in/a/x.pdf'', [importer_checking]), (''in/b/x.pdf'', [importer_checking])] None
       inbox_fs)) = []"
    by code_simp
  show "node_at (fs_after (file_fn docs_config
       [(''in/a/x.pdf'', [importer_checking]), (''in/b/x.pdf'', [importer_checking])] None inbox_fs))
       ''/docs/Assets/Bank/Checking/2014-06-08.x.pdf'' = Some (RegularFile ''second'' july_1)"
    by code_simp
  show "node_at (fs_after (file_fn docs_config
       [(''in/a/x.pdf'', [importer_checking]), (''in/b/x.pdf'', [importer_checking])] None inbox_fs))
       ''in/a/x.pdf'' = None"
    by code_simp
  show "node_at (fs_after (file_fn docs_config
       [(''in/a/x.pdf'', [importer_checking]), (''in/b/x.pdf'', [importer_checking])] None inbox_fs))
       ''in/b/x.pdf'' = None"
    by code_simp
qed

theorem shared_destination_loses_a_file_witness:
  "node_at (fs_after (file_fn docs_config
       [(''in/a/x.pdf'', [importer_checking]), (''in/b/x.pdf'', [importer_checking])] None inbox_fs))
       ''/docs/Assets/Bank/Checking/2014-06-08.x.pdf'' = Some (RegularFile ''second'' july_1)"
  using shared_destination_loses_a_file by (elim conjE)

subsection \<open>The report written to the log file\<close>

text \<open>
  C7, as claimed: with a log file, every processed file gets a report, whatever its
  outcome, with the resolved date and the tag \<^verbatim>\<open>extracted\<close> when the importer gave the
  date and \<^verbatim>\<open>mtime\<close> otherwise. Evaluated here with an empty log file: a file whose
  importer gives no account is logged as an error and nothing is written to the log
  file; and for a file whose importer gives the date 2014-05-31, while the file was
  last modified on 2014-06-08, the date line reads \<^verbatim>\<open>2014-06-08 (from mtime)\<close> beside
  a destination named \<^verbatim>\<open>2014-05-31.may.pdf\<close>.
\<close>

theorem report_counterexample:
  "logging (state_after (file_fn docs_config [(''in/unknown.csv'', [importer_silent])] (Some [])
       inbox_fs)) = [NoAccountProvided [''N'']]
   \<and> logfile (state_after (file_fn docs_config [(''in/unknown.csv'', [importer_silent])] (Some [])
       inbox_fs)) = Some []
   \<and> logfile (state_after (file_fn docs_config [(''in/statement.pdf'', [importer_dated])] (Some [])
       inbox_fs))
     = Some [''=== in/statement.pdf'' @ newline,
             newline,
             ''  Importer:    D'' @ newline,
             ''  Account:     Assets:Bank:Checking'' @ newline,
             ''  Date:        2014-06-08 (from mtime)'' @ newline,
             ''  Destination: /docs/Assets/Bank/Checking/2014-05-31.may.pdf'' @ newline,
             newline]"
  by code_simp

text \<open>
  C7, amended. With a log file, a file that exists, has at least one importer and
  gets exactly one account has one block of seven lines appended to the log file,
  whether a job or a destination error follows: the file name, an empty line, the name
  of the first importer, the account, a date line, the destination path and an empty
  line. (What the date line holds is left open.)
\<close>

theorem report_for_resolved_account:
  assumes "importers = importer # others"
    and "{a. \<exists>i \<in> set importers. file_account i filename = Some a} = {account}"
    and "getmtime_date fs filename = Inr m"
    and "logfile st = Some written"
  shows "\<exists>st' date_line.
           file_body cfg fs filename importers st = Inr st'
         \<and> logfile st' = Some (written @
              [''=== '' @ filename @ newline,
               newline,
               ''  Importer:    '' @ name importer @ newline,
               ''  Account:     '' @ account @ newline,
               date_line,
               ''  Destination: '' @ new_fullname_of (destination cfg) account
                   (case file_date importer filename of Some d \<Rightarrow> d | None \<Rightarrow> m)
                   (clean_basename_of cfg importer filename) @ newline,
               newline])"
proof -
  have "set (collect_accounts importers filename) = {account}"
    using set_collect_accounts [of importers filename] assms(2) by simp
  then have accs: "collect_accounts importers filename = [account]"
    using distinct_collect_accounts by (simp add: distinct_singleton)
  have body: "file_body cfg fs filename importers st
                = file_with_account cfg fs filename importer account st"
    using accs assms(1) by (simp add: file_body_def)
  have lf: "logfile (case file_name importer filename of
                       None \<Rightarrow> st
                     | Some clean_filename \<Rightarrow>
                         if match_date_prefix clean_filename then logging_error DatedFileName st
                         else st) = Some written"
    using assms(4) by (simp add: logging_error_def split: option.splits)
  show ?thesis
    unfolding body
    using assms(3) lf
    by (auto simp: file_with_account_def Let_def logging_error_def report_block_def
          fst_resolve_date [symmetric]
          split: prod.splits)
qed

theorem report_for_resolved_account_witness:
  "\<exists>st' date_line.
      file_body docs_config inbox_fs ''in/statement.pdf'' [importer_dated, importer_silent]
        (initial_state (Some [])) = Inr st'
    \<and> logfile st' = Some
         [''=== in/statement.pdf'' @ newline,
          newline,
          ''  Importer:    D'' @ newline,
          ''  Account:     Assets:Bank:Checking'' @ newline,
          date_line,
          ''  Destination: /docs/Assets/Bank/Checking/2014-05-31.may.pdf'' @ newline,
          newline]"
proof -
  have accs: "{a. \<exists>i \<in> set [importer_dated, importer_silent].
                 file_account i ''in/statement.pdf'' = Some a} = {''Assets:Bank:Checking''}"
    by (auto simp add: importer_dated_def importer_silent_def)
  have m: "getmtime_date inbox_fs ''in/statement.pdf'' = Inr june_8"
    by code_simp
  have lf: "logfile (initial_state (Some [])) = Some []"
    by (simp add: initial_state_def)
  have dst: "new_fullname_of (destination docs_config) ''Assets:Bank:Checking''
              (case file_date importer_dated ''in/statement.pdf'' of Some d \<Rightarrow> d
               | None \<Rightarrow> june_8)
              (clean_basename_of docs_config importer_dated ''in/statement.pdf'')
            = ''/docs/Assets/Bank/Checking/2014-05-31.may.pdf''"
    by code_simp
  have nm: "name importer_dated = ''D''" by (simp add: importer_dated_def)
  from report_for_resolved_account [OF refl accs m lf, of docs_config, unfolded dst nm]
  show ?thesis by simp
qed

subsection \<open>Moving a file\<close>


lemma node_at_empty [simp]: "node_at fs [] = None"
  by (simp add: node_at_def)

lemma fs_key_nodes [simp]: "fs_key (fs\<lparr>nodes := x\<rparr>) p = fs_key fs p"
  by (simp add: fs_key_def)

















text \<open>
  A run on a device that accepts two bytes of the first copy: the call ends with the
  exception, the first source is intact, the destination holds the two bytes and the
  second file has not been touched.
\<close>

lemma partial_copy_run:
  "returned (file_fn docs_config
       [(''in/a/x.pdf'', [importer_checking]), (''in/b/x.pdf'', [importer_checking])] None
       full_disk_fs) = Inl (OSError ''/docs/Assets/Bank/Checking/2014-06-08.x.pdf'')
   \<and> node_at (fs_after (file_fn docs_config
       [(''in/a/x.pdf'', [importer_checking]), (''in/b/x.pdf'', [importer_checking])] None
       full_disk_fs)) ''in/a/x.pdf'' = Some (RegularFile ''first'' june_8)
   \<and> node_at (fs_after (file_fn docs_config
       [(''in/a/x.pdf'', [importer_checking]), (''in/b/x.pdf'', [importer_checking])] None
       full_disk_fs)) ''/docs/Assets/Bank/Checking/2014-06-08.x.pdf''
       = Some (RegularFile ''fi'' july_1)
   \<and> node_at (fs_after (file_fn docs_config
       [(''in/a/x.pdf'', [importer_checking]), (''in/b/x.pdf'', [importer_checking])] None
       full_disk_fs)) ''in/b/x.pdf'' = Some (RegularFile ''second'' june_8)"
  by code_simp

text \<open>
  Two spellings of one path are one file: a move of a file onto itself under another
  spelling raises, and the file stays. So does a move to a path that ends with a slash.
\<close>

lemma move_onto_itself:
  "(case move_xdev_file ''in/statement.pdf'' ''/home/user/in/./statement.pdf'' True inbox_fs of
      Inl (e, fs') \<Rightarrow> e = SameFileError ''in/statement.pdf''
        \<and> node_at fs' ''in/statement.pdf'' = Some (RegularFile ''%PDF-1'' june_8)
    | Inr fs' \<Rightarrow> False)"
  by code_simp

lemma move_to_trailing_slash:
  "(case move_xdev_file ''in/statement.pdf'' ''/docs/sub/'' True inbox_fs of
      Inl (e, fs') \<Rightarrow> e = IsADirectoryError ''/docs/sub/''
        \<and> node_at fs' ''in/statement.pdf'' = Some (RegularFile ''%PDF-1'' june_8)
    | Inr fs' \<Rightarrow> False)"
  by code_simp

subsection \<open>The last component of a normalised path\<close>

text \<open>
  Joining a name without a slash, other than \<^verbatim>\<open>.\<close> and \<^verbatim>\<open>..\<close>, to a path and normalising
  the result gives the normalised path followed by the name: \<^verbatim>\<open>basename\<close> gives the name
  back and \<^verbatim>\<open>dirname\<close> the normalised path (the empty string where \<^verbatim>\<open>normpath\<close> writes
  a dot).
\<close>

lemma split_sep_not_Nil: "split_sep c s \<noteq> []"
  by (induction s) (auto split: list.splits)

lemma split_sep_no_sep: "c \<notin> set s \<Longrightarrow> split_sep c s = [s]"
  by (induction s) auto

lemma split_sep_append:
  "split_sep c (xs @ c # ys) = split_sep c xs @ split_sep c ys"
proof (induction xs)
  case Nil
  then show ?case by simp
next
  case (Cons x xs)
  obtain y zs where "split_sep c xs = y # zs"
    using split_sep_not_Nil [of c xs] by (cases "split_sep c xs") auto
  with Cons show ?case by auto
qed

lemma split_sep_parts: "x \<in> set (split_sep c s) \<Longrightarrow> c \<notin> set x"
proof (induction s arbitrary: x)
  case Nil
  then show ?case by simp
next
  case (Cons a s)
  obtain y zs where yz: "split_sep c s = y # zs"
    using split_sep_not_Nil [of c s] by (cases "split_sep c s") auto
  show ?case
  proof (cases "a = c")
    case True
    with Cons show ?thesis by auto
  next
    case False
    with Cons.prems yz have "x = a # y \<or> x \<in> set zs" by auto
    with Cons.IH yz False show ?thesis by auto
  qed
qed

lemma norm_comps_append:
  "norm_comps i acc (xs @ ys) = norm_comps i (norm_comps i acc xs) ys"
  by (induction xs arbitrary: acc) auto

lemma norm_comps_plain:
  assumes "\<forall>x \<in> set acc. (x \<noteq> [] \<and> x \<noteq> ''.'' \<and> os_sep \<notin> set x)" and "\<forall>x \<in> set xs. os_sep \<notin> set x"
  shows "\<forall>x \<in> set (norm_comps i acc xs). (x \<noteq> [] \<and> x \<noteq> ''.'' \<and> os_sep \<notin> set x)"
  using assms
proof (induction xs arbitrary: acc)
  case Nil
  then show ?case by simp
next
  case (Cons x xs)
  have b: "\<forall>y \<in> set (butlast acc). (y \<noteq> [] \<and> y \<noteq> ''.'' \<and> os_sep \<notin> set y)"
    using Cons.prems(1) by (meson in_set_butlastD)
  have a: "x \<noteq> [] \<Longrightarrow> x \<noteq> ''.'' \<Longrightarrow> \<forall>y \<in> set (acc @ [x]). (y \<noteq> [] \<and> y \<noteq> ''.'' \<and> os_sep \<notin> set y)"
    using Cons.prems by auto
  from Cons.prems(2) have rest: "\<forall>x \<in> set xs. os_sep \<notin> set x" by simp
  show ?case
    using Cons.IH [OF Cons.prems(1) rest] Cons.IH [OF b rest] Cons.IH [OF a rest]
    by auto
qed

lemma join_sep_snoc:
  "xs \<noteq> [] \<Longrightarrow> join_sep s (xs @ [n]) = join_sep s xs @ s @ n"
  by (induction s xs rule: join_sep.induct) auto

lemma join_sep_plain:
  assumes "xs \<noteq> []" and "\<forall>x \<in> set xs. (x \<noteq> [] \<and> x \<noteq> ''.'' \<and> os_sep \<notin> set x)"
  shows "join_sep [os_sep] xs \<noteq> [] \<and> last (join_sep [os_sep] xs) \<noteq> os_sep"
  using assms
proof (induction "[os_sep]" xs rule: join_sep.induct)
  case 1
  then show ?case by simp
next
  case (2 x)
  then have "x \<noteq> []" and "os_sep \<notin> set x" by simp_all
  with last_in_set [of x] have "last x \<noteq> os_sep" by metis
  with \<open>x \<noteq> []\<close> show ?case by simp
next
  case (3 x y zs)
  then show ?case by auto
qed

lemma initial_slashes_join_step:
  assumes "h \<noteq> os_sep" and "p \<noteq> []"
  shows "initial_slashes_of (join_step p (h # t)) = initial_slashes_of p"
proof -
  consider a where "p = [a]" | a b where "p = [a, b]" | a b c r where "p = a # b # c # r"
    using assms(2) by (cases p rule: list.exhaust; metis list.exhaust)
  then show ?thesis
    using assms(1)
    by cases (auto simp: initial_slashes_of_def startswith_def join_step_def endswith_def)
qed

lemma rfind_after_prefix:
  assumes "os_sep \<notin> set n" and "x = [] \<or> last x = os_sep"
  shows "rfind_sep_plus1 (x @ n) = length x"
proof -
  have "takeWhile (\<lambda>c. c \<noteq> os_sep) (rev n @ rev x) = rev n"
  proof (cases "x = []")
    case True
    with assms(1) show ?thesis by auto
  next
    case False
    with assms(2) have "hd (rev x) = os_sep" by (simp add: hd_rev)
    with False have "takeWhile (\<lambda>c. c \<noteq> os_sep) (rev x) = []"
      by (cases "rev x") auto
    moreover have "takeWhile (\<lambda>c. c \<noteq> os_sep) (rev n @ rev x)
                     = rev n @ takeWhile (\<lambda>c. c \<noteq> os_sep) (rev x)"
      by (rule takeWhile_append2) (use assms(1) in auto)
    ultimately show ?thesis by simp
  qed
  then show ?thesis by (simp add: rfind_sep_plus1_def)
qed

lemma rstrip_one:
  assumes "y \<noteq> []" and "last y \<noteq> c"
  shows "rstrip c (y @ [c]) = y"
proof -
  from assms have "hd (rev y) \<noteq> c" by (simp add: hd_rev)
  with assms(1) have "dropWhile (\<lambda>x. x = c) (rev y) = rev y" by (cases "rev y") auto
  then show ?thesis by (simp add: rstrip_def)
qed

lemma normpath_unfold:
  assumes "p \<noteq> []"
  shows "normpath p =
     (let path2 = replicate (initial_slashes_of p) os_sep
           @ join_sep [os_sep] (norm_comps (initial_slashes_of p) [] (split_sep os_sep p))
      in if path2 = [] then ''.'' else path2)"
  using assms by (simp add: normpath_def Let_def)

lemma join_sep_not_dot:
  assumes "xs \<noteq> []" and "\<forall>x \<in> set xs. (x \<noteq> [] \<and> x \<noteq> ''.'' \<and> os_sep \<notin> set x)"
  shows "join_sep [os_sep] xs \<noteq> ''.''"
proof (cases xs)
  case Nil
  with assms show ?thesis by simp
next
  case (Cons x ys)
  show ?thesis
  proof (cases ys)
    case Nil
    with Cons assms show ?thesis by simp
  next
    case (Cons y zs)
    with \<open>xs = x # ys\<close> assms(2) have "x \<noteq> []" by simp
    with Cons \<open>xs = x # ys\<close> show ?thesis
      by (cases x) (auto simp: os_sep_def)
  qed
qed

lemma endswith_single: "endswith p [c] \<longleftrightarrow> (\<exists>q. p = q @ [c])"
  by (cases p rule: rev_cases) (auto simp: endswith_def)

lemma split_join_step:
  assumes "n = h # t" and "h \<noteq> os_sep" and "os_sep \<notin> set n" and "p \<noteq> []"
  shows "norm_comps i [] (split_sep os_sep (join_step p n))
         = norm_comps i (norm_comps i [] (split_sep os_sep p)) [n]"
proof (cases "endswith p [os_sep]")
  case True
  then obtain q where q: "p = q @ [os_sep]"
    by (auto simp: endswith_single)
  from assms(1,2) True have "join_step p n = q @ os_sep # n"
    by (simp add: join_step_def startswith_def q)
  then have "split_sep os_sep (join_step p n) = split_sep os_sep q @ [n]"
    using assms(3) by (simp add: split_sep_append split_sep_no_sep)
  moreover have "split_sep os_sep p = split_sep os_sep q @ [[]]"
    using split_sep_append [of os_sep q "[]"] by (simp add: q)
  ultimately show ?thesis by (simp add: norm_comps_append)
next
  case False
  with assms(1,2,4) have "join_step p n = p @ os_sep # n"
    by (simp add: join_step_def startswith_def)
  then have "split_sep os_sep (join_step p n) = split_sep os_sep p @ [n]"
    using assms(3) by (simp add: split_sep_append split_sep_no_sep)
  then show ?thesis by (simp add: norm_comps_append)
qed

lemma not_all_sep:
  assumes "y \<noteq> []" and "last y \<noteq> c"
  shows "y @ [c] \<noteq> replicate (length (y @ [c])) c"
proof
  assume eq: "y @ [c] = replicate (length (y @ [c])) c"
  from assms(1) have "last y \<in> set y" by (rule last_in_set)
  then have "last y \<in> set (y @ [c])" by simp
  with eq have "last y \<in> set (replicate (length (y @ [c])) c)" by metis
  then have "last y = c" by (metis in_set_replicate)
  with assms(2) show False by contradiction
qed

lemma normpath_single_name:
  assumes "n = h # t" and "h \<noteq> os_sep" and "os_sep \<notin> set n" and "n \<noteq> ''.''"
    and "n \<noteq> ''..''"
  shows "normpath n = n"
proof -
  from assms(1,2) have "initial_slashes_of n = 0"
    by (simp add: initial_slashes_of_def startswith_def)
  moreover from assms(3) have "split_sep os_sep n = [n]" by (rule split_sep_no_sep)
  ultimately show ?thesis using assms(1,4,5) by (simp add: normpath_def)
qed

lemma normpath_join_name:
  assumes "n = h # t" and "h \<noteq> os_sep" and "os_sep \<notin> set n" and "n \<noteq> ''.''"
    and "n \<noteq> ''..''"
  shows "path_basename (normpath (join_step p n)) = n
       \<and> path_dirname (normpath (join_step p n)) = (if normpath p = ''.'' then [] else normpath p)"
proof (cases "p = []")
  case True
  from assms(1,2) True have "join_step p n = n" by (simp add: join_step_def startswith_def)
  moreover have "normpath n = n" using assms by (rule normpath_single_name)
  moreover have "rfind_sep_plus1 ([] @ n) = length ([] :: string)"
    by (rule rfind_after_prefix) (use assms(3) in simp_all)
  ultimately show ?thesis using True
    by (simp add: path_basename_def path_dirname_def normpath_def)
next
  case False
  let ?i = "initial_slashes_of p"
  let ?pre = "replicate ?i os_sep"
  let ?C = "norm_comps ?i [] (split_sep os_sep p)"
  have jne: "join_step p n \<noteq> []"
    using False assms(1) by (auto simp: join_step_def)
  have i': "initial_slashes_of (join_step p n) = ?i"
    unfolding assms(1) using assms(2) False by (rule initial_slashes_join_step)
  have comps: "norm_comps ?i [] (split_sep os_sep (join_step p n)) = ?C @ [n]"
    using split_join_step [OF assms(1,2,3) False, of ?i] assms(1,4,5) by simp
  have dst: "normpath (join_step p n) = ?pre @ join_sep [os_sep] (?C @ [n])"
  proof -
    have "join_sep [os_sep] (?C @ [n]) \<noteq> []"
      using assms(1) by (cases "?C = []") (simp_all add: join_sep_snoc)
    then show ?thesis
      by (simp add: normpath_unfold [OF jne] i' comps Let_def)
  qed
  have plain: "\<forall>x \<in> set ?C. (x \<noteq> [] \<and> x \<noteq> ''.'' \<and> os_sep \<notin> set x)"
    by (rule norm_comps_plain) (auto dest: split_sep_parts)
  have np: "normpath p = (if ?pre @ join_sep [os_sep] ?C = [] then ''.''
                          else ?pre @ join_sep [os_sep] ?C)"
    by (simp add: normpath_unfold [OF False] Let_def)
  have pre_not_dot: "?pre @ r \<noteq> ''.''" if "?i \<noteq> 0" for r
  proof -
    from that obtain k where "?i = Suc k" by (cases ?i) auto
    then show ?thesis by (simp add: os_sep_def)
  qed
  show ?thesis
  proof (cases "?C = []")
    case True
    then have d: "normpath (join_step p n) = ?pre @ n" by (simp add: dst)
    have "?pre = [] \<or> last ?pre = os_sep"
      by (cases ?i) simp_all
    with assms(3) have r: "rfind_sep_plus1 (?pre @ n) = length ?pre"
      by (rule rfind_after_prefix)
    have base: "path_basename (normpath (join_step p n)) = n"
      by (simp add: d path_basename_def r)
    have dir: "path_dirname (normpath (join_step p n)) = ?pre"
      by (simp add: d path_dirname_def r)
    have "(if normpath p = ''.'' then [] else normpath p) = ?pre"
    proof (cases "?i = 0")
      case True
      with \<open>?C = []\<close> show ?thesis by (simp add: np)
    next
      case False
      with pre_not_dot [OF False, of "[]"] \<open>?C = []\<close> show ?thesis by (simp add: np)
    qed
    with base dir show ?thesis by simp
  next
    case False
    let ?y = "?pre @ join_sep [os_sep] ?C"
    from join_sep_plain [OF False plain]
    have jn: "join_sep [os_sep] ?C \<noteq> []" and jl: "last (join_sep [os_sep] ?C) \<noteq> os_sep"
      by simp_all
    have yne: "?y \<noteq> []" and yl: "last ?y \<noteq> os_sep" using jn jl by simp_all
    have d: "normpath (join_step p n) = (?y @ [os_sep]) @ n"
      by (simp add: dst join_sep_snoc [OF False])
    have r: "rfind_sep_plus1 ((?y @ [os_sep]) @ n) = length (?y @ [os_sep])"
      by (rule rfind_after_prefix) (use assms(3) in simp_all)
    have base: "path_basename (normpath (join_step p n)) = n"
      unfolding d path_basename_def r by simp
    have notall: "?y @ [os_sep] \<noteq> replicate (length (?y @ [os_sep])) os_sep"
      using yne yl by (rule not_all_sep)
    have dir: "path_dirname (normpath (join_step p n)) = ?y"
      unfolding d path_dirname_def r using notall rstrip_one [OF yne yl]
      by (simp add: Let_def)
    have "?y \<noteq> ''.''"
    proof (cases "?i = 0")
      case True
      with join_sep_not_dot [OF False plain] show ?thesis by simp
    next
      case False
      then show ?thesis by (rule pre_not_dot)
    qed
    moreover from np yne have "normpath p = ?y" by (simp only: if_False)
    ultimately have "(if normpath p = ''.'' then [] else normpath p) = ?y"
      by (simp only: if_False)
    with base dir show ?thesis by simp
  qed
qed

lemma digit_char_not_sep: "digit_char k \<noteq> os_sep"
proof -
  have "k mod 10 < length ''0123456789''" by simp
  then have "''0123456789'' ! (k mod 10) \<in> set ''0123456789''" by (rule nth_mem)
  then show ?thesis by (auto simp: digit_char_def os_sep_def)
qed

lemma strftime_Y_no_sep: "os_sep \<notin> set (strftime_Y y)"
proof
  assume "os_sep \<in> set (strftime_Y y)"
  then have "os_sep \<in> set (pad4 y)"
    unfolding strftime_Y_def by (rule set_dropWhileD)
  then show False
    using digit_char_not_sep [of "y div 1000 mod 10"] digit_char_not_sep [of "y div 100 mod 10"]
      digit_char_not_sep [of "y div 10 mod 10"] digit_char_not_sep [of "y mod 10"]
    by (auto simp: pad4_def)
qed

lemma format_date_no_sep: "os_sep \<notin> set (format_date d)"
  using strftime_Y_no_sep [of "year d"]
    digit_char_not_sep [of "month d div 10 mod 10"] digit_char_not_sep [of "month d mod 10"]
    digit_char_not_sep [of "day d div 10 mod 10"] digit_char_not_sep [of "day d mod 10"]
  by (auto simp: format_date_def pad2_def os_sep_def)

lemma length_format_date: "6 \<le> length (format_date d)"
  by (simp add: format_date_def pad2_def)

lemma path_basename_takeWhile:
  "path_basename p = rev (takeWhile (\<lambda>c. c \<noteq> os_sep) (rev p))"
proof -
  let ?k = "length (takeWhile (\<lambda>c. c \<noteq> os_sep) (rev p))"
  have "rev (takeWhile (\<lambda>c. c \<noteq> os_sep) (rev p)) = rev (take ?k (rev p))"
    using takeWhile_eq_take [of "\<lambda>c. c \<noteq> os_sep" "rev p"] by simp
  also have "\<dots> = drop (length p - ?k) p"
    by (simp add: rev_take)
  finally show ?thesis by (simp add: path_basename_def rfind_sep_plus1_def)
qed

lemma path_basename_no_sep: "os_sep \<notin> set (path_basename p)"
  unfolding path_basename_takeWhile by (auto dest: set_takeWhileD)

text \<open>
  C10. Let an iteration add a job; when \<^verbatim>\<open>idify\<close> is on, let the result of
  \<^verbatim>\<open>misc_utils.idify\<close> have no slash. Then the cleaned basename has no slash (with
  \<^verbatim>\<open>idify\<close> off it is the \<^verbatim>\<open>basename\<close> of the name that \<^verbatim>\<open>file_name\<close> gave, or of the
  name of the file), the last component of the destination is the date, a dot and the
  cleaned basename, and the directory of the destination is the normalised join of the
  destination root and the path of the account: the name supplied by the importer
  never moves the destination to another directory.
\<close>

theorem destination_in_account_directory:
  assumes "file_body cfg fs filename importers st = Inr st'" and "jobs st' \<noteq> jobs st"
    and "idify cfg \<longrightarrow> os_sep \<notin> set (misc_utils_idify cfg (path_basename
           (case file_name (hd importers) filename of None \<Rightarrow> filename | Some n \<Rightarrow> n)))"
  shows "\<exists>account date dst.
           {a. \<exists>i \<in> set importers. file_account i filename = Some a} = {account}
         \<and> jobs st' = jobs st @ [(filename, dst)]
         \<and> os_sep \<notin> set (clean_basename_of cfg (hd importers) filename)
         \<and> (\<not> idify cfg \<longrightarrow> clean_basename_of cfg (hd importers) filename
               = path_basename (case file_name (hd importers) filename of
                                  None \<Rightarrow> filename | Some n \<Rightarrow> n))
         \<and> path_basename dst
             = format_date date @ ''.'' @ clean_basename_of cfg (hd importers) filename
         \<and> path_dirname dst
             = (if normpath (path_join (destination cfg)
                               [str_replace account_sep os_sep account]) = ''.''
                then []
                else normpath (path_join (destination cfg)
                                 [str_replace account_sep os_sep account]))"
proof -
  from file_body_result [OF assms(1)] assms(2) obtain importer others account m where
    imps: "importers = importer # others"
    and accs: "collect_accounts importers filename = [account]"
    and j: "jobs st' = jobs st @ [(filename, new_fullname_of (destination cfg) account
                   (fst (resolve_date importer filename m)) (clean_basename_of cfg importer filename))]"
    by blast
  let ?date = "fst (resolve_date importer filename m)"
  let ?b = "clean_basename_of cfg importer filename"
  let ?n = "format_date ?date @ ''.'' @ ?b"
  let ?p = "path_join (destination cfg) [str_replace account_sep os_sep account]"
  let ?dst = "new_fullname_of (destination cfg) account ?date ?b"
  have hd: "hd importers = importer" using imps by simp
  have set_accs: "{a. \<exists>i \<in> set importers. file_account i filename = Some a} = {account}"
    using set_collect_accounts [of importers filename] accs by simp
  have plain: "\<not> idify cfg \<longrightarrow> ?b = path_basename (case file_name importer filename of
                                  None \<Rightarrow> filename | Some n \<Rightarrow> n)"
    by (simp add: clean_basename_of_def)
  have b: "os_sep \<notin> set ?b"
    using assms(3) path_basename_no_sep by (auto simp: clean_basename_of_def Let_def hd)
  have dst: "?dst = normpath (join_step ?p ?n)"
    by (simp add: new_fullname_of_def path_join_def)
  obtain h t where ht: "format_date ?date = h # t"
    using length_format_date [of ?date] by (cases "format_date ?date") auto
  have n1: "?n = h # (t @ ''.'' @ ?b)" by (simp add: ht)
  have n2: "h \<noteq> os_sep" using format_date_no_sep [of ?date] ht by auto
  have n3: "os_sep \<notin> set ?n" using format_date_no_sep [of ?date] b by (auto simp: os_sep_def)
  have len: "length ?n > 2" using length_format_date [of ?date] by simp
  have n4: "?n \<noteq> ''.''"
  proof
    assume "?n = ''.''"
    then have "length ?n = length ''.''" by (rule arg_cong)
    with len show False by simp
  qed
  have n5: "?n \<noteq> ''..''"
  proof
    assume "?n = ''..''"
    then have "length ?n = length ''..''" by (rule arg_cong)
    with len show False by simp
  qed
  from normpath_join_name [OF n1 n2 n3 n4 n5, of ?p]
  have "path_basename ?dst = ?n"
    and "path_dirname ?dst = (if normpath ?p = ''.'' then [] else normpath ?p)"
    unfolding dst by simp_all
  with set_accs j b plain show ?thesis unfolding hd by blast
qed

theorem destination_in_account_directory_witness:
  "\<exists>st' date dst.
      file_body docs_config inbox_fs ''in/statement.pdf'' [importer_dated] (initial_state None)
        = Inr st'
    \<and> jobs st' = [(''in/statement.pdf'', dst)]
    \<and> path_basename dst = format_date date @ ''.may.pdf''
    \<and> path_dirname dst = ''/docs/Assets/Bank/Checking''"
proof -
  define st' where "st' = (initial_state None)
       \<lparr>jobs := [(''in/statement.pdf'', ''/docs/Assets/Bank/Checking/2014-05-31.may.pdf'')]\<rparr>"
  have "file_body docs_config inbox_fs ''in/statement.pdf'' [importer_dated] (initial_state None)
          = Inr ((initial_state None)
       \<lparr>jobs := [(''in/statement.pdf'', ''/docs/Assets/Bank/Checking/2014-05-31.may.pdf'')]\<rparr>)"
    by code_simp
  then have r: "file_body docs_config inbox_fs ''in/statement.pdf'' [importer_dated]
           (initial_state None) = Inr st'"
    by (simp add: st'_def)
  have ne: "jobs st' \<noteq> jobs (initial_state None)"
    by (simp add: st'_def initial_state_def)
  have i: "idify docs_config \<longrightarrow> os_sep \<notin> set (misc_utils_idify docs_config (path_basename
           (case file_name (hd [importer_dated]) ''in/statement.pdf'' of
              None \<Rightarrow> ''in/statement.pdf'' | Some n \<Rightarrow> n)))"
    by (simp add: docs_config_def)
  have accs: "{a. \<exists>i \<in> set [importer_dated]. file_account i ''in/statement.pdf'' = Some a}
               = {''Assets:Bank:Checking''}"
    by (auto simp: importer_dated_def)
  have b: "clean_basename_of docs_config (hd [importer_dated]) ''in/statement.pdf'' = ''may.pdf''"
    by code_simp
  have dir: "normpath (path_join (destination docs_config)
               [str_replace account_sep os_sep ''Assets:Bank:Checking''])
             = ''/docs/Assets/Bank/Checking''"
    by code_simp
  have j0: "jobs (initial_state None) = []" by (simp add: initial_state_def)
  from destination_in_account_directory [OF r ne i] obtain account date dst where
    a: "{a. \<exists>i \<in> set [importer_dated]. file_account i ''in/statement.pdf'' = Some a} = {account}"
    and j: "jobs st' = jobs (initial_state None) @ [(''in/statement.pdf'', dst)]"
    and bn: "path_basename dst = format_date date @ ''.''
               @ clean_basename_of docs_config (hd [importer_dated]) ''in/statement.pdf''"
    and dn: "path_dirname dst
             = (if normpath (path_join (destination docs_config)
                               [str_replace account_sep os_sep account]) = ''.''
                then []
                else normpath (path_join (destination docs_config)
                                 [str_replace account_sep os_sep account]))"
    by blast
  from a accs have acc: "account = ''Assets:Bank:Checking''" by simp
  from dn have "path_dirname dst = ''/docs/Assets/Bank/Checking''"
    unfolding acc dir by simp
  moreover from bn have "path_basename dst = format_date date @ ''.may.pdf''"
    unfolding b by simp
  moreover from j have "jobs st' = [(''in/statement.pdf'', dst)]" unfolding j0 by simp
  ultimately show ?thesis using r by blast
qed

end
